theory Spec2Isabelle
  imports
    Main
    "HOL-Library.Word"
    "HOL-Library.Char_ord"
    "HOL-Library.List_Lexorder"
    "HOL-Library.Product_Lexorder"
    "HOL-Library.Multiset"
begin

section \<open>The stored document\<close>

text \<open>
  \<^verbatim>\<open>TrackerStore.data\<close> is whatever \<^verbatim>\<open>json.load\<close> returned: a loosely typed tree of
  dictionaries and lists. A Python dictionary keeps its keys in insertion order, so it is
  an association list here; a key is looked up with \<open>map_of\<close> (first entry). A float is
  kept as its binary64 bit pattern: the store never computes with \<^verbatim>\<open>cost\<close>.
\<close>

datatype json =
    JNull
  | JBool bool
  | JInt int
  | JFloat "64 word"
  | JStr string
  | JList "json list"
  | JDict "(string \<times> json) list"

text \<open>
  Every exception of the source is a value. \<open>Unmodelled\<close> marks an input on which
  Python carries on with an operation this theory has no definition for (float
  arithmetic, \<^verbatim>\<open>int("12")\<close>, iterating a dictionary or a string, comparing values of
  other types than int and str); it is not an exception of the program.
\<close>

datatype error =
    KeyError string
  | TypeError
  | AttributeError
  | JSONDecodeError
  | Unmodelled

definition bind :: "error + 'a \<Rightarrow> ('a \<Rightarrow> error + 'b) \<Rightarrow> error + 'b" where
  "bind m f = (case m of Inl e \<Rightarrow> Inl e | Inr x \<Rightarrow> f x)"

fun mapM :: "('a \<Rightarrow> error + 'b) \<Rightarrow> 'a list \<Rightarrow> error + 'b list" where
  "mapM f [] = Inr []"
| "mapM f (x # xs) = bind (f x) (\<lambda>y. bind (mapM f xs) (\<lambda>ys. Inr (y # ys)))"

subsection \<open>Dictionary and list primitives of Python\<close>

text \<open>\<^verbatim>\<open>d[k] = v\<close> on the entries of a dictionary: an existing key keeps its position.\<close>

fun dict_set :: "(string \<times> 'v) list \<Rightarrow> string \<Rightarrow> 'v \<Rightarrow> (string \<times> 'v) list" where
  "dict_set [] k v = [(k, v)]"
| "dict_set ((k', v') # d) k v =
     (if k' = k then (k, v) # d else (k', v') # dict_set d k v)"

text \<open>\<^verbatim>\<open>d.update(e)\<close>: every entry of \<open>e\<close> is assigned in turn.\<close>

definition dict_update :: "(string \<times> 'v) list \<Rightarrow> (string \<times> 'v) list \<Rightarrow> (string \<times> 'v) list" where
  "dict_update d e = foldl (\<lambda>acc kv. dict_set acc (fst kv) (snd kv)) d e"

text \<open>\<^verbatim>\<open>x[k]\<close> with a string key: only a dictionary can be subscripted by a string.\<close>

definition subscript :: "json \<Rightarrow> string \<Rightarrow> error + json" where
  "subscript x k =
     (case x of
        JDict d \<Rightarrow> (case map_of d k of None \<Rightarrow> Inl (KeyError k) | Some v \<Rightarrow> Inr v)
      | _ \<Rightarrow> Inl TypeError)"

text \<open>\<^verbatim>\<open>x.get(k, default)\<close>: only a dictionary has the method.\<close>

definition py_get :: "json \<Rightarrow> string \<Rightarrow> json \<Rightarrow> error + json" where
  "py_get x k dflt =
     (case x of
        JDict d \<Rightarrow> (case map_of d k of None \<Rightarrow> Inr dflt | Some v \<Rightarrow> Inr v)
      | _ \<Rightarrow> Inl AttributeError)"

text \<open>\<^verbatim>\<open>x[k] = v\<close> with a string key.\<close>

definition py_setitem :: "json \<Rightarrow> string \<Rightarrow> json \<Rightarrow> error + json" where
  "py_setitem x k v =
     (case x of JDict d \<Rightarrow> Inr (JDict (dict_set d k v)) | _ \<Rightarrow> Inl TypeError)"

text \<open>\<^verbatim>\<open>x.update(e)\<close> and \<^verbatim>\<open>x.append(v)\<close>.\<close>

definition py_update :: "json \<Rightarrow> (string \<times> json) list \<Rightarrow> error + json" where
  "py_update x e =
     (case x of JDict d \<Rightarrow> Inr (JDict (dict_update d e)) | _ \<Rightarrow> Inl AttributeError)"

definition py_append :: "json \<Rightarrow> json \<Rightarrow> error + json" where
  "py_append x v =
     (case x of JList xs \<Rightarrow> Inr (JList (xs @ [v])) | _ \<Rightarrow> Inl AttributeError)"

text \<open>\<^verbatim>\<open>for item in x\<close>: the items of a list, in order.\<close>

definition iter_list :: "json \<Rightarrow> error + json list" where
  "iter_list x =
     (case x of
        JList xs \<Rightarrow> Inr xs
      | JDict d \<Rightarrow> Inl Unmodelled
      | JStr s \<Rightarrow> Inl Unmodelled
      | _ \<Rightarrow> Inl TypeError)"

text \<open>\<^verbatim>\<open>int(x)\<close>.\<close>

definition py_int :: "json \<Rightarrow> error + int" where
  "py_int x =
     (case x of
        JInt n \<Rightarrow> Inr n
      | JBool b \<Rightarrow> Inr (if b then 1 else 0)
      | JFloat w \<Rightarrow> Inl Unmodelled
      | JStr s \<Rightarrow> Inl Unmodelled
      | _ \<Rightarrow> Inl TypeError)"

text \<open>\<^verbatim>\<open>a + b\<close> and \<^verbatim>\<open>a - b\<close>, defined here on two ints.\<close>

definition py_add :: "json \<Rightarrow> json \<Rightarrow> error + json" where
  "py_add a b =
     (case (a, b) of (JInt m, JInt n) \<Rightarrow> Inr (JInt (m + n)) | _ \<Rightarrow> Inl Unmodelled)"

definition py_sub :: "json \<Rightarrow> json \<Rightarrow> error + json" where
  "py_sub a b =
     (case (a, b) of (JInt m, JInt n) \<Rightarrow> Inr (JInt (m - n)) | _ \<Rightarrow> Inl Unmodelled)"

subsection \<open>Strings\<close>

text \<open>
  A character is a code point below 256 (HOL's \<open>char\<close>), so a string is Latin-1 text.
  On this range \<^verbatim>\<open>str.strip()\<close> removes the code points 9 to 13, 28 to 32, U+0085 and
  U+00A0 from both ends, and \<^verbatim>\<open>str.lower()\<close> maps A to Z and U+00C0 to U+00DE, except
  U+00D7, to the code point 32 above, leaving every other one as it is.
\<close>

definition py_isspace :: "char \<Rightarrow> bool" where
  "py_isspace c \<longleftrightarrow>
     c \<in> set [CHR 0x09, CHR 0x0A, CHR 0x0B, CHR 0x0C, CHR 0x0D,
              CHR 0x1C, CHR 0x1D, CHR 0x1E, CHR 0x1F, CHR 0x20, CHR 0x85, CHR 0xA0]"

definition py_strip :: "string \<Rightarrow> string" where
  "py_strip s = rev (dropWhile py_isspace (rev (dropWhile py_isspace s)))"

definition py_lower_char :: "char \<Rightarrow> char" where
  "py_lower_char c =
     (case map_of
        (zip (''ABCDEFGHIJKLMNOPQRSTUVWXYZ'' @
              [CHR 0xC0, CHR 0xC1, CHR 0xC2, CHR 0xC3, CHR 0xC4, CHR 0xC5, CHR 0xC6, CHR 0xC7,
               CHR 0xC8, CHR 0xC9, CHR 0xCA, CHR 0xCB, CHR 0xCC, CHR 0xCD, CHR 0xCE, CHR 0xCF,
               CHR 0xD0, CHR 0xD1, CHR 0xD2, CHR 0xD3, CHR 0xD4, CHR 0xD5, CHR 0xD6, CHR 0xD8,
               CHR 0xD9, CHR 0xDA, CHR 0xDB, CHR 0xDC, CHR 0xDD, CHR 0xDE])
             (''abcdefghijklmnopqrstuvwxyz'' @
              [CHR 0xE0, CHR 0xE1, CHR 0xE2, CHR 0xE3, CHR 0xE4, CHR 0xE5, CHR 0xE6, CHR 0xE7,
               CHR 0xE8, CHR 0xE9, CHR 0xEA, CHR 0xEB, CHR 0xEC, CHR 0xED, CHR 0xEE, CHR 0xEF,
               CHR 0xF0, CHR 0xF1, CHR 0xF2, CHR 0xF3, CHR 0xF4, CHR 0xF5, CHR 0xF6, CHR 0xF8,
               CHR 0xF9, CHR 0xFA, CHR 0xFB, CHR 0xFC, CHR 0xFD, CHR 0xFE])) c of
        None \<Rightarrow> c
      | Some l \<Rightarrow> l)"

definition py_lower :: "string \<Rightarrow> string" where
  "py_lower s = map py_lower_char s"

text \<open>\<^verbatim>\<open>name.strip().lower()\<close>, the normal form both sides of the lookup are compared in.\<close>

definition normalize_name :: "string \<Rightarrow> string" where
  "normalize_name s = py_lower (py_strip s)"

text \<open>The same on a stored value: only a string has \<^verbatim>\<open>strip\<close>.\<close>

definition strip_lower :: "json \<Rightarrow> error + string" where
  "strip_lower x = (case x of JStr s \<Rightarrow> Inr (normalize_name s) | _ \<Rightarrow> Inl AttributeError)"

subsection \<open>Sorting\<close>

text \<open>
  \<^verbatim>\<open>list.sort(key=f, reverse=r)\<close> computes the key of every item first, in list order,
  then sorts the keyed items stably; with \<^verbatim>\<open>reverse=True\<close> it reverses the list
  before and after the stable sort. \<open>sort_key\<close> is the stable insertion sort of HOL.
\<close>

definition py_sort :: "('a \<Rightarrow> error + 'k::linorder) \<Rightarrow> bool \<Rightarrow> 'a list \<Rightarrow> error + 'a list" where
  "py_sort f reverse xs =
     bind (mapM f xs) (\<lambda>ks.
       Inr (if reverse
            then rev (map snd (sort_key fst (rev (zip ks xs))))
            else map snd (sort_key fst (zip ks xs))))"

definition list_sort :: "(json \<Rightarrow> error + 'k::linorder) \<Rightarrow> bool \<Rightarrow> json \<Rightarrow> error + json" where
  "list_sort f reverse x =
     (case x of
        JList xs \<Rightarrow> bind (py_sort f reverse xs) (\<lambda>ys. Inr (JList ys))
      | _ \<Rightarrow> Inl AttributeError)"

section \<open>The dataclasses\<close>

record ConsumablePart =
  name :: string
  interval_km :: int
  last_change_km :: int
  notes' :: string

record ServiceRecord =
  date :: string
  mileage_km :: int
  title :: string
  details :: string
  cost :: "64 word"

text \<open>
  The field \<^verbatim>\<open>notes\<close> is written \<open>notes'\<close> (\<open>notes\<close> is a keyword of Isar).
  \<^verbatim>\<open>asdict\<close> gives one entry per field, in declaration order, under the source's keys.
\<close>

definition asdict_part :: "ConsumablePart \<Rightarrow> (string \<times> json) list" where
  "asdict_part p =
     [(''name'', JStr (name p)),
      (''interval_km'', JInt (interval_km p)),
      (''last_change_km'', JInt (last_change_km p)),
      (''notes'', JStr (notes' p))]"

definition asdict_record :: "ServiceRecord \<Rightarrow> (string \<times> json) list" where
  "asdict_record r =
     [(''date'', JStr (date r)),
      (''mileage_km'', JInt (mileage_km r)),
      (''title'', JStr (title r)),
      (''details'', JStr (details r)),
      (''cost'', JFloat (cost r))]"

section \<open>The tracker store\<close>

text \<open>
  The disk maps a path to the content of the file there. \<^verbatim>\<open>json.load\<close> and
  \<^verbatim>\<open>json.dump\<close> are library code: a file is kept up to the document its text denotes
  (\<open>Wellformed\<close>), or as text that \<^verbatim>\<open>json.load\<close> rejects (\<open>Malformed\<close>). Writing
  a file always succeeds here.
\<close>

datatype file_content = Wellformed json | Malformed string

type_synonym disk = "string \<rightharpoonup> file_content"

record TrackerStore =
  db_path :: string
  data :: json

definition default_data :: json where
  "default_data =
     JDict [(''current_mileage_km'', JInt 0), (''parts'', JList []), (''service_history'', JList [])]"

text \<open>\<^verbatim>\<open>_load\<close>.\<close>

definition load :: "string \<Rightarrow> disk \<Rightarrow> error + json" where
  "load path dk =
     (case dk path of
        None \<Rightarrow> Inr default_data
      | Some (Malformed txt) \<Rightarrow> Inl JSONDecodeError
      | Some (Wellformed doc) \<Rightarrow> Inr doc)"

text \<open>\<^verbatim>\<open>__init__\<close>.\<close>

definition init :: "string \<Rightarrow> disk \<Rightarrow> error + TrackerStore" where
  "init path dk = bind (load path dk) (\<lambda>doc. Inr \<lparr>db_path = path, data = doc\<rparr>)"

definition save :: "TrackerStore \<Rightarrow> disk \<Rightarrow> disk" where
  "save st dk = dk(db_path st \<mapsto> Wellformed (data st))"

definition current_mileage :: "TrackerStore \<Rightarrow> error + int" where
  "current_mileage st = bind (py_get (data st) ''current_mileage_km'' (JInt 0)) py_int"

definition set_current_mileage ::
  "int \<Rightarrow> TrackerStore \<Rightarrow> disk \<Rightarrow> error + (unit \<times> TrackerStore \<times> disk)" where
  "set_current_mileage km st dk =
     bind (py_setitem (data st) ''current_mileage_km'' (JInt km)) (\<lambda>doc.
       let st' = st\<lparr>data := doc\<rparr> in Inr ((), st', save st' dk))"

text \<open>
  \<^verbatim>\<open>find_part\<close> returns a reference to the first matching dictionary of the list; the
  reference is the index together with the dictionary found there.
\<close>

definition part_key :: "json \<Rightarrow> error + string" where
  "part_key p = bind (subscript p ''name'') strip_lower"

fun find_in :: "string \<Rightarrow> json list \<Rightarrow> error + (nat \<times> json) option" where
  "find_in lowered [] = Inr None"
| "find_in lowered (p # ps) =
     bind (part_key p) (\<lambda>k.
       if k = lowered then Inr (Some (0, p))
       else bind (find_in lowered ps) (\<lambda>r.
         Inr (case r of None \<Rightarrow> None | Some (i, q) \<Rightarrow> Some (Suc i, q))))"

definition find_part :: "TrackerStore \<Rightarrow> string \<Rightarrow> error + (nat \<times> json) option" where
  "find_part st nm =
     (let lowered = normalize_name nm in
      bind (subscript (data st) ''parts'') (\<lambda>parts.
      bind (iter_list parts) (\<lambda>ps. find_in lowered ps)))"

text \<open>
  A dictionary changed through the reference is the item at that index of the list
  \<^verbatim>\<open>data["parts"]\<close>: the change is written back there.
\<close>

definition replace_item :: "json \<Rightarrow> nat \<Rightarrow> json \<Rightarrow> error + json" where
  "replace_item x i v =
     (case x of JList xs \<Rightarrow> Inr (JList (xs[i := v])) | _ \<Rightarrow> Inl TypeError)"

definition write_parts :: "TrackerStore \<Rightarrow> json \<Rightarrow> error + TrackerStore" where
  "write_parts st parts = bind (py_setitem (data st) ''parts'' parts) (\<lambda>doc. Inr (st\<lparr>data := doc\<rparr>))"

definition add_part ::
  "ConsumablePart \<Rightarrow> TrackerStore \<Rightarrow> disk \<Rightarrow> error + (unit \<times> TrackerStore \<times> disk)" where
  "add_part part st dk =
     bind (subscript (data st) ''parts'') (\<lambda>parts.
     bind (find_part st (name part)) (\<lambda>existing.
     bind (case existing of
             Some (i, p) \<Rightarrow> bind (py_update p (asdict_part part)) (replace_item parts i)
           | None \<Rightarrow> py_append parts (JDict (asdict_part part))) (\<lambda>parts'.
     bind (write_parts st parts') (\<lambda>st'.
       Inr ((), st', save st' dk)))))"

definition change_part ::
  "string \<Rightarrow> int \<Rightarrow> string \<Rightarrow> TrackerStore \<Rightarrow> disk \<Rightarrow> error + (bool \<times> TrackerStore \<times> disk)" where
  "change_part nm km nts st dk =
     bind (find_part st nm) (\<lambda>found.
       case found of
         None \<Rightarrow> Inr (False, st, dk)
       | Some (i, p) \<Rightarrow>
           bind (py_setitem p ''last_change_km'' (JInt km)) (\<lambda>p1.
           bind (if nts \<noteq> [] then py_setitem p1 ''notes'' (JStr nts) else Inr p1) (\<lambda>p2.
           bind (subscript (data st) ''parts'') (\<lambda>parts.
           bind (replace_item parts i p2) (\<lambda>parts'.
           bind (write_parts st parts') (\<lambda>st'.
             Inr (True, st', save st' dk)))))))"

text \<open>The sort key \<^verbatim>\<open>(x["mileage_km"], x["date"])\<close>, compared as an (int, str) pair.\<close>

definition record_key :: "json \<Rightarrow> error + (int \<times> string)" where
  "record_key x =
     bind (subscript x ''mileage_km'') (\<lambda>m.
     bind (subscript x ''date'') (\<lambda>d.
       case (m, d) of (JInt n, JStr s) \<Rightarrow> Inr (n, s) | _ \<Rightarrow> Inl Unmodelled))"

definition add_service_record ::
  "ServiceRecord \<Rightarrow> TrackerStore \<Rightarrow> disk \<Rightarrow> error + (unit \<times> TrackerStore \<times> disk)" where
  "add_service_record r st dk =
     bind (subscript (data st) ''service_history'') (\<lambda>h.
     bind (py_append h (JDict (asdict_record r))) (\<lambda>h1.
     bind (list_sort record_key True h1) (\<lambda>h2.
     bind (py_setitem (data st) ''service_history'' h2) (\<lambda>doc.
       let st' = st\<lparr>data := doc\<rparr> in Inr ((), st', save st' dk)))))"

text \<open>One item of \<^verbatim>\<open>due_parts\<close>: \<^verbatim>\<open>{**part, "due_at_km": ..., "remaining_km": ...}\<close>.\<close>

definition due_item :: "int \<Rightarrow> json \<Rightarrow> error + json" where
  "due_item current part =
     bind (subscript part ''last_change_km'') (\<lambda>a.
     bind (subscript part ''interval_km'') (\<lambda>b.
     bind (py_add a b) (\<lambda>due_at.
     bind (py_sub due_at (JInt current)) (\<lambda>remaining.
       case part of
         JDict d \<Rightarrow> Inr (JDict (dict_set (dict_set d ''due_at_km'' due_at) ''remaining_km'' remaining))
       | _ \<Rightarrow> Inl TypeError))))"

definition remaining_key :: "json \<Rightarrow> error + int" where
  "remaining_key x =
     bind (subscript x ''remaining_km'') (\<lambda>r.
       case r of JInt n \<Rightarrow> Inr n | _ \<Rightarrow> Inl Unmodelled)"

definition due_parts ::
  "int option \<Rightarrow> TrackerStore \<Rightarrow> disk \<Rightarrow> error + (json list \<times> TrackerStore \<times> disk)" where
  "due_parts at_mileage st dk =
     bind (case at_mileage of None \<Rightarrow> current_mileage st | Some m \<Rightarrow> Inr m) (\<lambda>current.
     bind (subscript (data st) ''parts'') (\<lambda>parts.
     bind (iter_list parts) (\<lambda>ps.
     bind (mapM (due_item current) ps) (\<lambda>results.
     bind (py_sort remaining_key False results) (\<lambda>sorted_results.
       Inr (sorted_results, st, dk))))))"

section \<open>Reading a stored document\<close>

text \<open>
  The spec speaks of the fields of a part, of a record and of the state. These
  definitions read them off the stored dictionaries; the theorems below are stated with
  them.
\<close>

definition dict_field :: "string \<Rightarrow> json \<Rightarrow> json option" where
  "dict_field k x = (case x of JDict d \<Rightarrow> map_of d k | _ \<Rightarrow> None)"

definition int_field :: "string \<Rightarrow> json \<Rightarrow> int" where
  "int_field k x = (case dict_field k x of Some (JInt n) \<Rightarrow> n | _ \<Rightarrow> 0)"

definition str_field :: "string \<Rightarrow> json \<Rightarrow> string" where
  "str_field k x = (case dict_field k x of Some (JStr s) \<Rightarrow> s | _ \<Rightarrow> [])"

text \<open>A part with both mileages stored as ints; a part with a string name.\<close>

definition has_km_fields :: "json \<Rightarrow> bool" where
  "has_km_fields p =
     (case (dict_field ''last_change_km'' p, dict_field ''interval_km'' p) of
        (Some (JInt a), Some (JInt b)) \<Rightarrow> True
      | _ \<Rightarrow> False)"

definition is_named :: "json \<Rightarrow> bool" where
  "is_named p = (case dict_field ''name'' p of Some (JStr s) \<Rightarrow> True | _ \<Rightarrow> False)"

text \<open>The normalized name of a stored part: the key of the uniqueness invariant.\<close>

definition name_key :: "json \<Rightarrow> string" where
  "name_key p = normalize_name (str_field ''name'' p)"

text \<open>A service record with an int mileage and a string date, and its sort key.\<close>

definition is_keyed :: "json \<Rightarrow> bool" where
  "is_keyed x =
     (case (dict_field ''mileage_km'' x, dict_field ''date'' x) of
        (Some (JInt n), Some (JStr s)) \<Rightarrow> True
      | _ \<Rightarrow> False)"

definition history_key :: "json \<Rightarrow> int \<times> string" where
  "history_key x = (int_field ''mileage_km'' x, str_field ''date'' x)"

text \<open>
  Descending by \<open>(mileage_km, date)\<close>: a higher mileage first, and at equal mileage the
  later date string first.
\<close>

definition history_before :: "json \<Rightarrow> json \<Rightarrow> bool" where
  "history_before x y \<longleftrightarrow>
     int_field ''mileage_km'' y < int_field ''mileage_km'' x
     \<or> (int_field ''mileage_km'' x = int_field ''mileage_km'' y
        \<and> str_field ''date'' y \<le> str_field ''date'' x)"

text \<open>
  DuePartView, in the spec's words: the part plus \<open>due_at_km = last_change_km +
  interval_km\<close> and \<open>remaining_km = due_at_km - reference\<close>.
\<close>

definition DuePartView :: "int \<Rightarrow> json \<Rightarrow> json" where
  "DuePartView reference p =
     (let due_at = int_field ''last_change_km'' p + int_field ''interval_km'' p in
      case p of
        JDict d \<Rightarrow>
          JDict (dict_update d
            [(''due_at_km'', JInt due_at), (''remaining_km'', JInt (due_at - reference))])
      | _ \<Rightarrow> p)"

text \<open>The reference mileage of DueParts: the argument, or the stored mileage.\<close>

definition reference_mileage :: "int option \<Rightarrow> int \<Rightarrow> int" where
  "reference_mileage at_mileage stored = (case at_mileage of None \<Rightarrow> stored | Some m \<Rightarrow> m)"

text \<open>A sequence of AddServiceRecord calls, each on the state the previous one left.\<close>

fun add_service_records ::
  "ServiceRecord list \<Rightarrow> TrackerStore \<Rightarrow> disk \<Rightarrow> error + (TrackerStore \<times> disk)" where
  "add_service_records [] st dk = Inr (st, dk)"
| "add_service_records (r # rs) st dk =
     bind (add_service_record r st dk) (\<lambda>res.
       add_service_records rs (fst (snd res)) (snd (snd res)))"

section \<open>Example states\<close>

definition oil_filter :: json where
  "oil_filter =
     JDict [(''name'', JStr ''oil filter''), (''interval_km'', JInt 10000),
            (''last_change_km'', JInt 5000), (''notes'', JStr [])]"

definition brake_pads :: json where
  "brake_pads =
     JDict [(''name'', JStr ''Brake Pads''), (''interval_km'', JInt 30000),
            (''last_change_km'', JInt 0), (''notes'', JStr ''front'')]"

definition example_data :: json where
  "example_data =
     JDict [(''current_mileage_km'', JInt 14000),
            (''parts'', JList [brake_pads, oil_filter]),
            (''service_history'', JList [])]"

definition example_store :: TrackerStore where
  "example_store = \<lparr>db_path = ''car_maintenance_data.json'', data = example_data\<rparr>"

definition tie_a :: json where
  "tie_a = JDict [(''name'', JStr ''a''), (''interval_km'', JInt 10), (''last_change_km'', JInt 5)]"

definition tie_b :: json where
  "tie_b = JDict [(''name'', JStr ''b''), (''interval_km'', JInt 5), (''last_change_km'', JInt 10)]"

definition tie_c :: json where
  "tie_c = JDict [(''name'', JStr ''c''), (''interval_km'', JInt 1), (''last_change_km'', JInt 1)]"

definition tie_store :: TrackerStore where
  "tie_store = \<lparr>db_path = ''db.json'',
     data = JDict [(''current_mileage_km'', JInt 0), (''parts'', JList [tie_b, tie_c, tie_a])]\<rparr>"

definition service_jan :: ServiceRecord where
  "service_jan =
     \<lparr>date = ''2024-01-01'', mileage_km = 10000, title = ''oil change'', details = [], cost = 0\<rparr>"

definition service_feb :: ServiceRecord where
  "service_feb =
     \<lparr>date = ''2024-02-01'', mileage_km = 12000, title = ''brakes'', details = ''front axle'',
      cost = 0x4062C00000000000\<rparr>"

definition new_store :: TrackerStore where
  "new_store = \<lparr>db_path = ''car_maintenance_data.json'', data = default_data\<rparr>"

definition new_brake_pads :: ConsumablePart where
  "new_brake_pads =
     \<lparr>name = ''BRAKE PADS '', interval_km = 25000, last_change_km = 1000, notes' = []\<rparr>"

definition air_filter :: ConsumablePart where
  "air_filter =
     \<lparr>name = ''air filter'', interval_km = 20000, last_change_km = 12000, notes' = ''paper''\<rparr>"

text \<open>
  A document written by hand: the part has no \<open>notes\<close> and a key the program does not
  know, the record has neither \<open>details\<close> nor \<open>cost\<close>. The second document is the same
  with the defaults of the data model stored.
\<close>

definition sparse_part :: json where
  "sparse_part =
     JDict [(''name'', JStr ''oil filter''), (''interval_km'', JInt 10000),
            (''last_change_km'', JInt 5000), (''supplier'', JStr ''acme'')]"

definition sparse_record :: json where
  "sparse_record =
     JDict [(''date'', JStr ''2024-01-01''), (''mileage_km'', JInt 10000),
            (''title'', JStr ''oil change'')]"

definition sparse_doc :: json where
  "sparse_doc =
     JDict [(''current_mileage_km'', JInt 14000), (''parts'', JList [sparse_part]),
            (''service_history'', JList [sparse_record]), (''schema'', JInt 2)]"

definition filled_part :: json where
  "filled_part =
     JDict [(''name'', JStr ''oil filter''), (''interval_km'', JInt 10000),
            (''last_change_km'', JInt 5000), (''supplier'', JStr ''acme''), (''notes'', JStr [])]"

definition filled_record :: json where
  "filled_record =
     JDict [(''date'', JStr ''2024-01-01''), (''mileage_km'', JInt 10000),
            (''title'', JStr ''oil change''), (''details'', JStr []), (''cost'', JInt 0)]"

definition filled_doc :: json where
  "filled_doc =
     JDict [(''current_mileage_km'', JInt 14000), (''parts'', JList [filled_part]),
            (''service_history'', JList [filled_record]), (''schema'', JInt 2)]"

definition sparse_disk :: disk where
  "sparse_disk = [''db.json'' \<mapsto> Wellformed sparse_doc]"

definition filled_disk :: disk where
  "filled_disk = [''db.json'' \<mapsto> Wellformed filled_doc]"

definition sparse_store :: TrackerStore where
  "sparse_store = \<lparr>db_path = ''db.json'', data = sparse_doc\<rparr>"

definition filled_store :: TrackerStore where
  "filled_store = \<lparr>db_path = ''db.json'', data = filled_doc\<rparr>"

definition oil_filter_part :: ConsumablePart where
  "oil_filter_part =
     \<lparr>name = ''oil filter'', interval_km = 10000, last_change_km = 5000, notes' = []\<rparr>"

text \<open>
  The session of the spec's first scenario: a new store, UpsertPart, SetCurrentMileage,
  then DueParts.
\<close>

definition due_scenario :: "error + json list" where
  "due_scenario =
     bind (init ''db.json'' Map.empty) (\<lambda>s0.
     bind (add_part oil_filter_part s0 Map.empty) (\<lambda>r1.
     bind (set_current_mileage 14000 (fst (snd r1)) (snd (snd r1))) (\<lambda>r2.
     bind (due_parts None (fst (snd r2)) (snd (snd r2))) (\<lambda>r3.
       Inr (fst r3)))))"

section \<open>Basic facts\<close>

lemma bind_Inr [simp]: "bind (Inr x) f = f x"
  by (simp add: bind_def)

lemma bind_Inl [simp]: "bind (Inl e) f = Inl e"
  by (simp add: bind_def)

lemma mapM_total:
  "(\<And>x. x \<in> set xs \<Longrightarrow> f x = Inr (g x)) \<Longrightarrow> mapM f xs = Inr (map g xs)"
  by (induction xs) simp_all

lemma insort_decorated:
  "insort_key fst (k x, x) (map (\<lambda>y. (k y, y)) ys) = map (\<lambda>y. (k y, y)) (insort_key k x ys)"
  by (induction ys) simp_all

lemma sort_decorated:
  "sort_key fst (map (\<lambda>y. (k y, y)) xs) = map (\<lambda>y. (k y, y)) (sort_key k xs)"
  by (induction xs) (simp_all add: insort_decorated)

lemma zip_decorate: "zip (map k xs) xs = map (\<lambda>y. (k y, y)) xs"
  by (induction xs) simp_all

lemma py_sort_total:
  assumes "\<And>x. x \<in> set xs \<Longrightarrow> f x = Inr (k x)"
  shows "py_sort f False xs = Inr (sort_key k xs)"
    and "py_sort f True xs = Inr (rev (sort_key k (rev xs)))"
proof -
  have m: "mapM f xs = Inr (map k xs)"
    using assms by (rule mapM_total)
  show "py_sort f False xs = Inr (sort_key k xs)"
    by (simp add: py_sort_def m zip_decorate sort_decorated comp_def)
  have "rev (zip (map k xs) xs) = map (\<lambda>y. (k y, y)) (rev xs)"
    by (simp add: zip_decorate rev_map)
  then show "py_sort f True xs = Inr (rev (sort_key k (rev xs)))"
    by (simp add: py_sort_def m sort_decorated comp_def)
qed

lemma map_of_dict_set: "map_of (dict_set d k v) = (map_of d)(k \<mapsto> v)"
  by (induction d k v rule: dict_set.induct) auto

lemma dict_set_same: "map_of d k = Some v \<Longrightarrow> dict_set d k v = d"
  by (induction d k v rule: dict_set.induct) auto

lemma dict_update_same:
  "(\<And>k v. (k, v) \<in> set e \<Longrightarrow> map_of d k = Some v) \<Longrightarrow> dict_update d e = d"
  unfolding dict_update_def
  by (induction e) (auto simp: dict_set_same)

lemma dict_update_Cons: "dict_update d ((k, v) # e) = dict_update (dict_set d k v) e"
  by (simp add: dict_update_def)

lemma dict_update_Nil: "dict_update d [] = d"
  by (simp add: dict_update_def)

lemma map_of_dict_update:
  "distinct (map fst e) \<Longrightarrow> map_of (dict_update d e) = map_of d ++ map_of e"
proof (induction e arbitrary: d)
  case Nil
  then show ?case by (simp add: dict_update_Nil)
next
  case (Cons kv e)
  obtain k v where kv: "kv = (k, v)" by (cases kv)
  from Cons.prems kv have "k \<notin> fst ` set e" "distinct (map fst e)" by auto
  then have "map_of e k = None" by (simp add: map_of_eq_None_iff)
  with Cons.IH [OF \<open>distinct (map fst e)\<close>] kv show ?case
    by (auto simp: dict_update_Cons map_of_dict_set fun_eq_iff map_add_def split: option.splits)
qed

subsection \<open>Views of due_parts\<close>

lemma has_km_fieldsD:
  assumes "has_km_fields p"
  obtains d a b where "p = JDict d" "map_of d ''last_change_km'' = Some (JInt a)"
    "map_of d ''interval_km'' = Some (JInt b)"
  using assms
  by (auto simp: has_km_fields_def dict_field_def split: json.splits option.splits)

lemma due_item_view:
  assumes "has_km_fields p"
  shows "due_item r p = Inr (DuePartView r p)"
proof -
  from assms obtain d a b where p: "p = JDict d"
    and a: "map_of d ''last_change_km'' = Some (JInt a)"
    and b: "map_of d ''interval_km'' = Some (JInt b)"
    by (rule has_km_fieldsD)
  show ?thesis
    by (simp add: p a b due_item_def subscript_def py_add_def py_sub_def DuePartView_def
        int_field_def dict_field_def dict_update_Cons dict_update_Nil Let_def)
qed

lemma view_fields:
  assumes "has_km_fields p"
  shows "dict_field ''due_at_km'' (DuePartView r p)
           = Some (JInt (int_field ''last_change_km'' p + int_field ''interval_km'' p))"
    and "dict_field ''remaining_km'' (DuePartView r p)
           = Some (JInt (int_field ''last_change_km'' p + int_field ''interval_km'' p - r))"
    and "k \<noteq> ''due_at_km'' \<Longrightarrow> k \<noteq> ''remaining_km'' \<Longrightarrow>
           dict_field k (DuePartView r p) = dict_field k p"
proof -
  from assms obtain d a b where p: "p = JDict d"
    and a: "map_of d ''last_change_km'' = Some (JInt a)"
    and b: "map_of d ''interval_km'' = Some (JInt b)"
    by (rule has_km_fieldsD)
  show "dict_field ''due_at_km'' (DuePartView r p)
           = Some (JInt (int_field ''last_change_km'' p + int_field ''interval_km'' p))"
    by (simp add: p DuePartView_def dict_field_def dict_update_Cons dict_update_Nil
        map_of_dict_set Let_def)
  show "dict_field ''remaining_km'' (DuePartView r p)
           = Some (JInt (int_field ''last_change_km'' p + int_field ''interval_km'' p - r))"
    by (simp add: p DuePartView_def dict_field_def dict_update_Cons dict_update_Nil
        map_of_dict_set Let_def)
  show "dict_field k (DuePartView r p) = dict_field k p"
    if "k \<noteq> ''due_at_km''" "k \<noteq> ''remaining_km''"
    using that
    by (simp add: p DuePartView_def dict_field_def dict_update_Cons dict_update_Nil
        map_of_dict_set Let_def)
qed

lemma remaining_key_view:
  assumes "has_km_fields p"
  shows "remaining_key (DuePartView r p) = Inr (int_field ''remaining_km'' (DuePartView r p))"
proof -
  from assms obtain d where p: "p = JDict d"
    by (rule has_km_fieldsD)
  have "dict_field ''remaining_km'' (DuePartView r p)
           = Some (JInt (int_field ''last_change_km'' p + int_field ''interval_km'' p - r))"
    using assms by (rule view_fields)
  then show ?thesis
    by (simp add: remaining_key_def subscript_def int_field_def p DuePartView_def Let_def
        dict_field_def)
qed

lemma due_parts_result:
  assumes parts: "dict_field ''parts'' (data st) = Some (JList ps)"
    and km: "\<forall>p\<in>set ps. has_km_fields p"
    and cur: "at_mileage = None \<longrightarrow> dict_field ''current_mileage_km'' (data st) = Some (JInt cur)"
  shows "due_parts at_mileage st dk =
           Inr (sort_key (int_field ''remaining_km'')
                  (map (DuePartView (reference_mileage at_mileage cur)) ps), st, dk)"
proof -
  let ?r = "reference_mileage at_mileage cur"
  from parts obtain d where d: "data st = JDict d" and dp: "map_of d ''parts'' = Some (JList ps)"
    by (auto simp: dict_field_def split: json.splits)
  from cur d have dc: "at_mileage = None \<longrightarrow> map_of d ''current_mileage_km'' = Some (JInt cur)"
    by (simp add: dict_field_def)
  have ref: "(case at_mileage of None \<Rightarrow> current_mileage st | Some m \<Rightarrow> Inr m) = Inr ?r"
    using dc
    by (simp add: reference_mileage_def current_mileage_def py_get_def py_int_def d
        split: option.splits)
  have items: "mapM (due_item ?r) ps = Inr (map (DuePartView ?r) ps)"
    using km by (intro mapM_total due_item_view) simp
  have sorted: "py_sort remaining_key False (map (DuePartView ?r) ps)
                  = Inr (sort_key (int_field ''remaining_km'') (map (DuePartView ?r) ps))"
    using km by (intro py_sort_total(1)) (auto simp: remaining_key_view)
  show ?thesis
    unfolding due_parts_def ref
    by (simp add: d subscript_def dp iter_list_def items sorted)
qed

section \<open>DueParts\<close>

text \<open>
  Claim C1. On a store whose parts all hold int \<open>last_change_km\<close> and \<open>interval_km\<close>,
  and for every reference mileage (the argument, or the stored \<open>current_mileage_km\<close>
  when none is given), \<open>due_parts\<close> returns one view per part, each with
  \<open>due_at_km = last_change_km + interval_km\<close> and \<open>remaining_km = due_at_km - reference\<close>;
  the result is sorted ascending by \<open>remaining_km\<close>; the store and the disk are returned
  as they were.
\<close>

theorem due_parts_views:
  assumes "dict_field ''parts'' (data st) = Some (JList ps)"
    and "\<forall>p\<in>set ps. has_km_fields p"
    and "at_mileage = None \<longrightarrow> dict_field ''current_mileage_km'' (data st) = Some (JInt cur)"
  shows "\<exists>vs. due_parts at_mileage st dk = Inr (vs, st, dk)
           \<and> mset vs = mset (map (DuePartView (reference_mileage at_mileage cur)) ps)
           \<and> length vs = length ps
           \<and> (\<forall>v\<in>set vs.
                dict_field ''due_at_km'' v
                  = Some (JInt (int_field ''last_change_km'' v + int_field ''interval_km'' v))
                \<and> dict_field ''remaining_km'' v
                  = Some (JInt (int_field ''due_at_km'' v - reference_mileage at_mileage cur)))
           \<and> sorted (map (int_field ''remaining_km'') vs)"
proof -
  let ?r = "reference_mileage at_mileage cur"
  let ?vs = "sort_key (int_field ''remaining_km'') (map (DuePartView ?r) ps)"
  have res: "due_parts at_mileage st dk = Inr (?vs, st, dk)"
    using assms by (rule due_parts_result)
  have perm: "mset ?vs = mset (map (DuePartView ?r) ps)"
    by simp
  have len: "length ?vs = length ps"
    by simp
  have srt: "sorted (map (int_field ''remaining_km'') ?vs)"
    by (rule sorted_sort_key)
  have flds: "dict_field ''due_at_km'' v
                  = Some (JInt (int_field ''last_change_km'' v + int_field ''interval_km'' v))
                \<and> dict_field ''remaining_km'' v
                  = Some (JInt (int_field ''due_at_km'' v - ?r))" if "v \<in> set ?vs" for v
  proof -
    from that obtain p where p: "p \<in> set ps" and v: "v = DuePartView ?r p"
      by auto
    from p assms(2) have km: "has_km_fields p" by simp
    have l: "int_field ''last_change_km'' v = int_field ''last_change_km'' p"
      and i: "int_field ''interval_km'' v = int_field ''interval_km'' p"
      unfolding v int_field_def by (simp_all add: view_fields(3) [OF km])
    have d: "int_field ''due_at_km'' v
               = int_field ''last_change_km'' p + int_field ''interval_km'' p"
      unfolding v by (simp add: int_field_def [of "''due_at_km''"] view_fields(1) [OF km])
    show ?thesis
      unfolding l i d unfolding v
      by (simp add: view_fields(1,2) [OF km])
  qed
  from res perm len srt flds show ?thesis
    by blast
qed

theorem due_parts_views_witness:
  "\<exists>vs. due_parts None example_store Map.empty = Inr (vs, example_store, Map.empty)
     \<and> mset vs = mset (map (DuePartView 14000) [brake_pads, oil_filter])
     \<and> length vs = 2
     \<and> sorted (map (int_field ''remaining_km'') vs)"
proof -
  have parts: "dict_field ''parts'' (data example_store) = Some (JList [brake_pads, oil_filter])"
    by (simp add: example_store_def example_data_def dict_field_def)
  have km: "\<forall>p\<in>set [brake_pads, oil_filter]. has_km_fields p"
    by (simp add: has_km_fields_def dict_field_def brake_pads_def oil_filter_def)
  have cur: "None = (None :: int option) \<longrightarrow>
               dict_field ''current_mileage_km'' (data example_store) = Some (JInt 14000)"
    by (simp add: example_store_def example_data_def dict_field_def)
  show ?thesis
    using due_parts_views [where at_mileage = None and dk = Map.empty, OF parts km cur]
    by (auto simp: reference_mileage_def)
qed

text \<open>
  Claim C10. Under the same conditions, the views whose \<open>remaining_km\<close> is a given
  value are the views of the parts with that remaining distance, in the order these
  parts have in the parts sequence: the sort is stable.
\<close>

theorem due_parts_stable:
  assumes "dict_field ''parts'' (data st) = Some (JList ps)"
    and "\<forall>p\<in>set ps. has_km_fields p"
    and "at_mileage = None \<longrightarrow> dict_field ''current_mileage_km'' (data st) = Some (JInt cur)"
  shows "\<exists>vs. due_parts at_mileage st dk = Inr (vs, st, dk)
           \<and> (\<forall>r. filter (\<lambda>v. int_field ''remaining_km'' v = r) vs
                  = map (DuePartView (reference_mileage at_mileage cur))
                      (filter (\<lambda>p. int_field ''last_change_km'' p + int_field ''interval_km'' p
                                    - reference_mileage at_mileage cur = r) ps))"
proof -
  let ?r = "reference_mileage at_mileage cur"
  let ?k = "int_field ''remaining_km''"
  let ?vs = "sort_key ?k (map (DuePartView ?r) ps)"
  have res: "due_parts at_mileage st dk = Inr (?vs, st, dk)"
    using assms by (rule due_parts_result)
  have rem: "?k (DuePartView ?r p)
               = int_field ''last_change_km'' p + int_field ''interval_km'' p - ?r"
    if "p \<in> set ps" for p
  proof -
    from that assms(2) have "has_km_fields p" by simp
    then show ?thesis
      by (simp add: int_field_def [of "''remaining_km''"] view_fields(2))
  qed
  have "filter (\<lambda>v. ?k v = r) ?vs
          = map (DuePartView ?r)
              (filter (\<lambda>p. int_field ''last_change_km'' p + int_field ''interval_km'' p - ?r = r) ps)"
    for r
  proof -
    have "filter (\<lambda>v. ?k v = r) ?vs = filter (\<lambda>v. ?k v = r) (map (DuePartView ?r) ps)"
      by (rule sort_key_stable)
    also have "\<dots> = map (DuePartView ?r) (filter (\<lambda>p. ?k (DuePartView ?r p) = r) ps)"
      by (simp add: filter_map comp_def)
    also have "filter (\<lambda>p. ?k (DuePartView ?r p) = r) ps
                 = filter (\<lambda>p. int_field ''last_change_km'' p + int_field ''interval_km'' p - ?r = r) ps"
      by (rule filter_cong) (simp_all add: rem)
    finally show ?thesis .
  qed
  with res show ?thesis
    by blast
qed

theorem due_parts_stable_witness:
  "\<exists>vs. due_parts None tie_store Map.empty = Inr (vs, tie_store, Map.empty)
     \<and> filter (\<lambda>v. int_field ''remaining_km'' v = 15) vs
         = [DuePartView 0 tie_b, DuePartView 0 tie_a]"
proof -
  have parts: "dict_field ''parts'' (data tie_store) = Some (JList [tie_b, tie_c, tie_a])"
    by (simp add: tie_store_def dict_field_def)
  have km: "\<forall>p\<in>set [tie_b, tie_c, tie_a]. has_km_fields p"
    by (simp add: has_km_fields_def dict_field_def tie_a_def tie_b_def tie_c_def)
  have cur: "None = (None :: int option) \<longrightarrow>
               dict_field ''current_mileage_km'' (data tie_store) = Some (JInt 0)"
    by (simp add: tie_store_def dict_field_def)
  have f: "filter (\<lambda>p. int_field ''last_change_km'' p + int_field ''interval_km'' p - 0 = 15)
             [tie_b, tie_c, tie_a] = [tie_b, tie_a]"
    by (simp add: int_field_def dict_field_def tie_a_def tie_b_def tie_c_def)
  show ?thesis
    using due_parts_stable [where at_mileage = None and dk = Map.empty, OF parts km cur] f
    by (auto simp: reference_mileage_def)
qed

subsection \<open>The sorted service history\<close>

lemma is_keyedD:
  assumes "is_keyed x"
  obtains d n s where "x = JDict d" "map_of d ''mileage_km'' = Some (JInt n)"
    "map_of d ''date'' = Some (JStr s)"
  using assms
  by (auto simp: is_keyed_def dict_field_def split: json.splits option.splits)

lemma record_key_keyed:
  assumes "is_keyed x"
  shows "record_key x = Inr (history_key x)"
proof -
  from assms obtain d n s where "x = JDict d" "map_of d ''mileage_km'' = Some (JInt n)"
    "map_of d ''date'' = Some (JStr s)"
    by (rule is_keyedD)
  then show ?thesis
    by (simp add: record_key_def subscript_def history_key_def int_field_def str_field_def
        dict_field_def)
qed

lemma is_keyed_asdict: "is_keyed (JDict (asdict_record r))"
  by (simp add: is_keyed_def dict_field_def asdict_record_def)

lemma history_before_key: "history_before x y \<longleftrightarrow> history_key y \<le> history_key x"
  by (auto simp: history_before_def history_key_def less_eq_prod_def)

lemma sorted_desc_rev_sort:
  "sorted_wrt history_before (rev (sort_key history_key xs))"
proof -
  have "sorted (map history_key (sort_key history_key xs))"
    by (rule sorted_sort_key)
  then have "sorted_wrt (\<lambda>x y. history_key x \<le> history_key y) (sort_key history_key xs)"
    by (simp add: sorted_wrt_map)
  then show ?thesis
    by (simp add: sorted_wrt_rev history_before_key)
qed

lemma stable_rev_sort:
  "filter (\<lambda>x. f x = k) (rev (sort_key f (rev xs))) = filter (\<lambda>x. f x = k) xs"
  by (simp add: rev_filter [symmetric] sort_key_stable)

lemma add_service_record_result:
  assumes h: "dict_field ''service_history'' (data st) = Some (JList h)"
    and keyed: "\<forall>x\<in>set h. is_keyed x"
  obtains d where "data st = JDict d"
    and "add_service_record r st dk =
           Inr ((), st\<lparr>data := JDict (dict_set d ''service_history''
                   (JList (rev (sort_key history_key (rev (h @ [JDict (asdict_record r)]))))))\<rparr>,
                save (st\<lparr>data := JDict (dict_set d ''service_history''
                   (JList (rev (sort_key history_key (rev (h @ [JDict (asdict_record r)]))))))\<rparr>) dk)"
proof -
  from h obtain d where d: "data st = JDict d"
    and dh: "map_of d ''service_history'' = Some (JList h)"
    by (auto simp: dict_field_def split: json.splits)
  let ?l = "h @ [JDict (asdict_record r)]"
  have "\<And>x. x \<in> set ?l \<Longrightarrow> record_key x = Inr (history_key x)"
    using keyed by (auto simp: record_key_keyed is_keyed_asdict)
  then have s: "py_sort record_key True ?l = Inr (rev (sort_key history_key (rev ?l)))"
    by (rule py_sort_total(2))
  have "add_service_record r st dk =
           Inr ((), st\<lparr>data := JDict (dict_set d ''service_history''
                   (JList (rev (sort_key history_key (rev ?l)))))\<rparr>,
                save (st\<lparr>data := JDict (dict_set d ''service_history''
                   (JList (rev (sort_key history_key (rev ?l)))))\<rparr>) dk)"
    unfolding add_service_record_def
    by (simp add: d subscript_def dh py_append_def list_sort_def s py_setitem_def Let_def
        del: sort_key_simps rev_append)
  with d show ?thesis
    by (rule that)
qed

lemma add_service_record_history:
  assumes "dict_field ''service_history'' (data st) = Some (JList h)"
    and "\<forall>x\<in>set h. is_keyed x"
  shows "\<exists>st' h'. add_service_record r st dk = Inr ((), st', save st' dk)
           \<and> dict_field ''service_history'' (data st') = Some (JList h')
           \<and> (\<forall>x\<in>set h'. is_keyed x)
           \<and> mset h' = mset (h @ [JDict (asdict_record r)])
           \<and> sorted_wrt history_before h'
           \<and> (\<forall>k. filter (\<lambda>x. history_key x = k) h'
                  = filter (\<lambda>x. history_key x = k) (h @ [JDict (asdict_record r)]))"
proof -
  let ?l = "h @ [JDict (asdict_record r)]"
  let ?h' = "rev (sort_key history_key (rev ?l))"
  from assms obtain d where d: "data st = JDict d"
    and res: "add_service_record r st dk =
           Inr ((), st\<lparr>data := JDict (dict_set d ''service_history'' (JList ?h'))\<rparr>,
                save (st\<lparr>data := JDict (dict_set d ''service_history'' (JList ?h'))\<rparr>) dk)"
    by (rule add_service_record_result)
  let ?st' = "st\<lparr>data := JDict (dict_set d ''service_history'' (JList ?h'))\<rparr>"
  have f: "dict_field ''service_history'' (data ?st') = Some (JList ?h')"
    by (simp add: dict_field_def map_of_dict_set)
  have m: "mset ?h' = mset ?l"
    by simp
  from m have "set ?h' = set ?l"
    by (rule mset_eq_setD)
  with assms(2) have k: "\<forall>x\<in>set ?h'. is_keyed x"
    by (auto simp: is_keyed_asdict)
  have s: "sorted_wrt history_before ?h'"
    by (rule sorted_desc_rev_sort)
  have st: "\<forall>k. filter (\<lambda>x. history_key x = k) ?h' = filter (\<lambda>x. history_key x = k) ?l"
    by (simp only: stable_rev_sort) simp
  from res f k m s st show ?thesis
    by blast
qed

text \<open>
  Claim C3. From a history whose entries hold an int \<open>mileage_km\<close> and a string \<open>date\<close>
  (the empty history of a new store among them), every sequence of AddServiceRecord calls
  succeeds, and the history it leaves is a permutation of the entries that were there
  and the records added, is sorted descending by \<open>(mileage_km, date)\<close> once a call was
  made, and keeps entries of equal key in the order they were stored and added in.
\<close>

theorem add_service_records_sorted:
  assumes "dict_field ''service_history'' (data st) = Some (JList h)"
    and "\<forall>x\<in>set h. is_keyed x"
  shows "\<exists>st' dk' h'. add_service_records rs st dk = Inr (st', dk')
           \<and> dict_field ''service_history'' (data st') = Some (JList h')
           \<and> mset h' = mset (h @ map (\<lambda>r. JDict (asdict_record r)) rs)
           \<and> (rs \<noteq> [] \<longrightarrow> sorted_wrt history_before h')
           \<and> (\<forall>k. filter (\<lambda>x. history_key x = k) h'
                  = filter (\<lambda>x. history_key x = k) (h @ map (\<lambda>r. JDict (asdict_record r)) rs))"
  using assms
proof (induction rs arbitrary: st dk h)
  case Nil
  then show ?case by simp
next
  case (Cons r rs)
  from add_service_record_history [OF Cons.prems, of r dk]
  obtain st1 h1 where step: "add_service_record r st dk = Inr ((), st1, save st1 dk)"
    and h1: "dict_field ''service_history'' (data st1) = Some (JList h1)"
    and k1: "\<forall>x\<in>set h1. is_keyed x"
    and m1: "mset h1 = mset (h @ [JDict (asdict_record r)])"
    and s1: "sorted_wrt history_before h1"
    and f1: "\<forall>k. filter (\<lambda>x. history_key x = k) h1
                  = filter (\<lambda>x. history_key x = k) (h @ [JDict (asdict_record r)])"
    by blast
  from Cons.IH [OF h1 k1, of "save st1 dk"]
  obtain st' dk' h' where rest: "add_service_records rs st1 (save st1 dk) = Inr (st', dk')"
    and h': "dict_field ''service_history'' (data st') = Some (JList h')"
    and m': "mset h' = mset (h1 @ map (\<lambda>r. JDict (asdict_record r)) rs)"
    and s': "rs \<noteq> [] \<longrightarrow> sorted_wrt history_before h'"
    and f': "\<forall>k. filter (\<lambda>x. history_key x = k) h'
                  = filter (\<lambda>x. history_key x = k) (h1 @ map (\<lambda>r. JDict (asdict_record r)) rs)"
    by blast
  have run: "add_service_records (r # rs) st dk = Inr (st', dk')"
    by (simp add: step rest)
  have m: "mset h' = mset (h @ map (\<lambda>r. JDict (asdict_record r)) (r # rs))"
    using m' m1 by simp
  have s: "sorted_wrt history_before h'"
  proof (cases "rs = []")
    case True
    with rest have "st' = st1" by simp
    with h1 h' have "h' = h1" by simp
    with s1 show ?thesis by simp
  next
    case False
    with s' show ?thesis by simp
  qed
  have f: "\<forall>k. filter (\<lambda>x. history_key x = k) h'
             = filter (\<lambda>x. history_key x = k) (h @ map (\<lambda>r. JDict (asdict_record r)) (r # rs))"
    using f' f1 by simp
  from run h' m s f show ?case
    by blast
qed

theorem add_service_records_sorted_witness:
  "\<exists>st' dk' h'. add_service_records [service_jan, service_feb] new_store Map.empty = Inr (st', dk')
     \<and> dict_field ''service_history'' (data st') = Some (JList h')
     \<and> mset h' = {#JDict (asdict_record service_jan), JDict (asdict_record service_feb)#}
     \<and> sorted_wrt history_before h'"
proof -
  have h: "dict_field ''service_history'' (data new_store) = Some (JList [])"
    by (simp add: new_store_def default_data_def dict_field_def)
  have k: "\<forall>x\<in>set []. is_keyed x"
    by simp
  show ?thesis
    using add_service_records_sorted [OF h k, of "[service_jan, service_feb]" Map.empty]
    by (auto simp del: add_service_records.simps simp: add_mset_commute)
qed

lemma history_scenario:
  "map_sum id (\<lambda>res. dict_field ''service_history'' (data (fst res)))
     (add_service_records [service_jan, service_feb] new_store Map.empty)
   = Inr (Some (JList [JDict (asdict_record service_feb), JDict (asdict_record service_jan)]))"
  by (simp add: add_service_record_def subscript_def py_append_def list_sort_def py_sort_def
      record_key_def py_setitem_def save_def new_store_def default_data_def asdict_record_def
      service_jan_def service_feb_def dict_field_def less_eq_prod_def)

subsection \<open>Looking a part up\<close>

lemma part_key_iff: "part_key p = Inr k \<longleftrightarrow> is_named p \<and> name_key p = k"
  by (auto simp: part_key_def subscript_def strip_lower_def is_named_def name_key_def
      str_field_def dict_field_def bind_def split: json.splits option.splits)

lemma find_in_none:
  "\<forall>p\<in>set ps. is_named p \<and> name_key p \<noteq> l \<Longrightarrow> find_in l ps = Inr None"
proof (induction ps)
  case Nil
  then show ?case by simp
next
  case (Cons p ps)
  then have "part_key p = Inr (name_key p)" "name_key p \<noteq> l"
    by (simp_all add: part_key_iff)
  with Cons show ?case by simp
qed

lemma find_in_first:
  assumes "\<forall>q\<in>set pre. is_named q \<and> name_key q \<noteq> l"
    and "is_named p" and "name_key p = l"
  shows "find_in l (pre @ p # post) = Inr (Some (length pre, p))"
  using assms(1)
proof (induction pre)
  case Nil
  from assms(2,3) have "part_key p = Inr l"
    by (simp add: part_key_iff)
  then show ?case by simp
next
  case (Cons q pre)
  then have "part_key q = Inr (name_key q)" "name_key q \<noteq> l"
    by (simp_all add: part_key_iff)
  with Cons show ?case by simp
qed

lemma find_in_NoneD:
  "find_in l ps = Inr None \<Longrightarrow> \<forall>p\<in>set ps. is_named p \<and> name_key p \<noteq> l"
proof (induction ps)
  case Nil
  then show ?case by simp
next
  case (Cons p ps)
  from Cons.prems obtain k where k: "part_key p = Inr k"
    by (cases "part_key p") simp_all
  with Cons.prems have ne: "k \<noteq> l"
    by (auto split: if_splits)
  with Cons.prems k have "find_in l ps = Inr None"
    by (cases "find_in l ps") (auto split: option.splits)
  with Cons.IH k ne show ?case
    by (auto simp: part_key_iff)
qed

lemma find_in_SomeD:
  "find_in l ps = Inr (Some (i, p)) \<Longrightarrow>
     \<exists>pre post. ps = pre @ p # post \<and> i = length pre
       \<and> (\<forall>q\<in>set pre. is_named q \<and> name_key q \<noteq> l) \<and> is_named p \<and> name_key p = l"
proof (induction ps arbitrary: i)
  case Nil
  then show ?case by simp
next
  case (Cons q ps)
  from Cons.prems obtain k where k: "part_key q = Inr k"
    by (cases "part_key q") simp_all
  show ?case
  proof (cases "k = l")
    case True
    with Cons.prems k have "i = 0" "p = q" by simp_all
    with k True have "q # ps = [] @ p # ps \<and> i = length ([]::json list)
       \<and> (\<forall>q\<in>set []. is_named q \<and> name_key q \<noteq> l) \<and> is_named p \<and> name_key p = l"
      by (simp add: part_key_iff)
    then show ?thesis by blast
  next
    case False
    with Cons.prems k obtain j where j: "find_in l ps = Inr (Some (j, p))" and i: "i = Suc j"
      by (cases "find_in l ps") (auto split: option.splits)
    from Cons.IH [OF j] obtain pre post where "ps = pre @ p # post" "j = length pre"
      "\<forall>q\<in>set pre. is_named q \<and> name_key q \<noteq> l" "is_named p" "name_key p = l"
      by blast
    with k False i have "q # ps = (q # pre) @ p # post \<and> i = length (q # pre)
       \<and> (\<forall>q\<in>set (q # pre). is_named q \<and> name_key q \<noteq> l) \<and> is_named p \<and> name_key p = l"
      by (simp add: part_key_iff)
    then show ?thesis by blast
  qed
qed

lemma find_part_parts:
  assumes "dict_field ''parts'' (data st) = Some (JList ps)"
  shows "find_part st nm = find_in (normalize_name nm) ps"
  using assms
  by (auto simp: find_part_def dict_field_def subscript_def iter_list_def Let_def
      split: json.splits)

lemma parts_fieldD:
  assumes "dict_field ''parts'' (data st) = Some x"
  obtains d where "data st = JDict d" "map_of d ''parts'' = Some x"
  using assms by (auto simp: dict_field_def split: json.splits)

lemma is_namedD:
  assumes "is_named p"
  obtains pd s where "p = JDict pd" "map_of pd ''name'' = Some (JStr s)"
proof -
  from assms obtain pd where p: "p = JDict pd"
    by (cases p) (simp_all add: is_named_def dict_field_def)
  from assms p obtain v where v: "map_of pd ''name'' = Some v"
    by (cases "map_of pd ''name''") (simp_all add: is_named_def dict_field_def)
  from assms p v obtain s where "v = JStr s"
    by (cases v) (simp_all add: is_named_def dict_field_def)
  with p v show ?thesis
    by (simp add: that)
qed

section \<open>ChangePart\<close>

text \<open>
  Claim C4. When every stored part has a name and no normalized name equals the
  normalized argument, \<open>change_part\<close> returns \<open>False\<close> as a value (no exception), and the
  store and the disk are exactly as before: nothing was changed and nothing was saved.
\<close>

theorem change_part_not_found:
  assumes "dict_field ''parts'' (data st) = Some (JList ps)"
    and "\<forall>p\<in>set ps. is_named p \<and> name_key p \<noteq> normalize_name nm"
  shows "change_part nm km nts st dk = Inr (False, st, dk)"
proof -
  have "find_part st nm = Inr None"
    using assms by (simp add: find_part_parts find_in_none)
  then show ?thesis
    by (simp add: change_part_def)
qed

theorem change_part_not_found_witness:
  "change_part ''nonexistent'' 100 [] example_store Map.empty = Inr (False, example_store, Map.empty)"
proof -
  have parts: "dict_field ''parts'' (data example_store) = Some (JList [brake_pads, oil_filter])"
    by (simp add: example_store_def example_data_def dict_field_def)
  have names: "\<forall>p\<in>set [brake_pads, oil_filter].
                 is_named p \<and> name_key p \<noteq> normalize_name ''nonexistent''"
    by (simp add: is_named_def name_key_def str_field_def dict_field_def brake_pads_def
        oil_filter_def normalize_name_def py_strip_def py_lower_def py_lower_char_def
        py_isspace_def)
  show ?thesis
    using change_part_not_found [OF parts names] .
qed

text \<open>
  Claim C5. When the first part whose normalized name equals the normalized argument is
  \<open>p\<close> (the parts before it have names, none matching), \<open>change_part\<close> returns \<open>True\<close>
  and saves; in the new state \<open>p\<close> is replaced, at its position, by an entry whose
  \<open>last_change_km\<close> is the given mileage, whose \<open>notes\<close> are the given notes when these
  are non-empty and the notes \<open>p\<close> had (or lacked) when they are empty, and whose other
  keys are those of \<open>p\<close>.
\<close>

theorem change_part_found:
  assumes "dict_field ''parts'' (data st) = Some (JList (pre @ p # post))"
    and "\<forall>q\<in>set pre. is_named q \<and> name_key q \<noteq> normalize_name nm"
    and "is_named p" and "name_key p = normalize_name nm"
  shows "\<exists>st' p'. change_part nm km nts st dk = Inr (True, st', save st' dk)
           \<and> dict_field ''parts'' (data st') = Some (JList (pre @ p' # post))
           \<and> dict_field ''last_change_km'' p' = Some (JInt km)
           \<and> (nts \<noteq> [] \<longrightarrow> dict_field ''notes'' p' = Some (JStr nts))
           \<and> (nts = [] \<longrightarrow> dict_field ''notes'' p' = dict_field ''notes'' p)
           \<and> (\<forall>k. k \<noteq> ''last_change_km'' \<longrightarrow> k \<noteq> ''notes'' \<longrightarrow>
                  dict_field k p' = dict_field k p)"
proof -
  from assms(1) obtain d where d: "data st = JDict d"
    and dp: "map_of d ''parts'' = Some (JList (pre @ p # post))"
    by (rule parts_fieldD)
  from assms(3) obtain pd where p: "p = JDict pd"
    by (rule is_namedD)
  have found: "find_part st nm = Inr (Some (length pre, p))"
    using assms by (simp add: find_part_parts find_in_first)
  let ?p1 = "dict_set pd ''last_change_km'' (JInt km)"
  let ?p2 = "if nts \<noteq> [] then dict_set ?p1 ''notes'' (JStr nts) else ?p1"
  let ?st' = "st\<lparr>data := JDict (dict_set d ''parts'' (JList (pre @ JDict ?p2 # post)))\<rparr>"
  have run: "change_part nm km nts st dk = Inr (True, ?st', save ?st' dk)"
    by (simp add: change_part_def found p py_setitem_def d subscript_def dp replace_item_def
        write_parts_def)
  have parts': "dict_field ''parts'' (data ?st') = Some (JList (pre @ JDict ?p2 # post))"
    by (simp add: dict_field_def map_of_dict_set)
  have lc: "dict_field ''last_change_km'' (JDict ?p2) = Some (JInt km)"
    by (simp add: dict_field_def map_of_dict_set)
  have n1: "nts \<noteq> [] \<longrightarrow> dict_field ''notes'' (JDict ?p2) = Some (JStr nts)"
    by (simp add: dict_field_def map_of_dict_set)
  have n2: "nts = [] \<longrightarrow> dict_field ''notes'' (JDict ?p2) = dict_field ''notes'' p"
    by (simp add: dict_field_def map_of_dict_set p)
  have other: "\<forall>k. k \<noteq> ''last_change_km'' \<longrightarrow> k \<noteq> ''notes'' \<longrightarrow>
                  dict_field k (JDict ?p2) = dict_field k p"
    by (simp add: dict_field_def map_of_dict_set p)
  from run parts' lc n1 n2 other show ?thesis
    by blast
qed

theorem change_part_found_witness:
  "(\<exists>st' p'. change_part ''brake pads'' 30000 [] example_store Map.empty
                 = Inr (True, st', save st' Map.empty)
      \<and> dict_field ''parts'' (data st') = Some (JList [p', oil_filter])
      \<and> dict_field ''last_change_km'' p' = Some (JInt 30000)
      \<and> dict_field ''notes'' p' = Some (JStr ''front''))
   \<and> (\<exists>st' p'. change_part '' OIL Filter '' 15000 ''synthetic'' example_store Map.empty
                 = Inr (True, st', save st' Map.empty)
      \<and> dict_field ''parts'' (data st') = Some (JList [brake_pads, p'])
      \<and> dict_field ''last_change_km'' p' = Some (JInt 15000)
      \<and> dict_field ''notes'' p' = Some (JStr ''synthetic''))"
proof -
  note defs = is_named_def name_key_def str_field_def dict_field_def brake_pads_def
    oil_filter_def normalize_name_def py_strip_def py_lower_def py_lower_char_def py_isspace_def
  have parts1: "dict_field ''parts'' (data example_store) = Some (JList ([] @ brake_pads # [oil_filter]))"
    by (simp add: example_store_def example_data_def dict_field_def)
  have pre1: "\<forall>q\<in>set []. is_named q \<and> name_key q \<noteq> normalize_name ''brake pads''"
    by simp
  have named1: "is_named brake_pads"
    by (simp add: defs)
  have key1: "name_key brake_pads = normalize_name ''brake pads''"
    by (simp add: defs)
  have notes1: "dict_field ''notes'' brake_pads = Some (JStr ''front'')"
    by (simp add: defs)
  have parts2: "dict_field ''parts'' (data example_store) = Some (JList ([brake_pads] @ oil_filter # []))"
    by (simp add: example_store_def example_data_def dict_field_def)
  have pre2: "\<forall>q\<in>set [brake_pads]. is_named q \<and> name_key q \<noteq> normalize_name '' OIL Filter ''"
    by (simp add: defs)
  have named2: "is_named oil_filter"
    by (simp add: defs)
  have key2: "name_key oil_filter = normalize_name '' OIL Filter ''"
    by (simp add: defs)
  have a: "\<exists>st' p'. change_part ''brake pads'' 30000 [] example_store Map.empty
                 = Inr (True, st', save st' Map.empty)
      \<and> dict_field ''parts'' (data st') = Some (JList [p', oil_filter])
      \<and> dict_field ''last_change_km'' p' = Some (JInt 30000)
      \<and> dict_field ''notes'' p' = Some (JStr ''front'')"
    using change_part_found [OF parts1 pre1 named1 key1, of 30000 "[]" Map.empty] notes1
    by auto
  have b: "\<exists>st' p'. change_part '' OIL Filter '' 15000 ''synthetic'' example_store Map.empty
                 = Inr (True, st', save st' Map.empty)
      \<and> dict_field ''parts'' (data st') = Some (JList [brake_pads, p'])
      \<and> dict_field ''last_change_km'' p' = Some (JInt 15000)
      \<and> dict_field ''notes'' p' = Some (JStr ''synthetic'')"
    using change_part_found [OF parts2 pre2 named2 key2, of 15000 "''synthetic''" Map.empty]
    by auto
  from a b show ?thesis ..
qed

subsection \<open>What add_part writes\<close>

lemma distinct_asdict_part: "distinct (map fst (asdict_part part))"
  by (simp add: asdict_part_def)

lemma map_of_asdict_part:
  "(k, v) \<in> set (asdict_part part) \<Longrightarrow> map_of (asdict_part part) k = Some v"
  using distinct_asdict_part by (rule map_of_is_SomeI)

lemma updated_named:
  "is_named (JDict (dict_update pd (asdict_part part)))"
  "name_key (JDict (dict_update pd (asdict_part part))) = normalize_name (name part)"
  by (simp_all add: is_named_def name_key_def str_field_def dict_field_def
      map_of_dict_update distinct_asdict_part, simp_all add: asdict_part_def)

lemma asdict_named:
  "is_named (JDict (asdict_part part))"
  "name_key (JDict (asdict_part part)) = normalize_name (name part)"
  by (simp_all add: is_named_def name_key_def str_field_def dict_field_def asdict_part_def)

lemma add_part_existing:
  assumes d: "data st = JDict d"
    and dp: "map_of d ''parts'' = Some (JList (pre @ JDict pd # post))"
    and pre: "\<forall>q\<in>set pre. is_named q \<and> name_key q \<noteq> normalize_name (name part)"
    and p: "is_named (JDict pd)" "name_key (JDict pd) = normalize_name (name part)"
  shows "add_part part st dk =
           Inr ((), st\<lparr>data := JDict (dict_set d ''parts''
                        (JList (pre @ JDict (dict_update pd (asdict_part part)) # post)))\<rparr>,
                save (st\<lparr>data := JDict (dict_set d ''parts''
                        (JList (pre @ JDict (dict_update pd (asdict_part part)) # post)))\<rparr>) dk)"
proof -
  have "dict_field ''parts'' (data st) = Some (JList (pre @ JDict pd # post))"
    by (simp add: dict_field_def d dp)
  then have "find_part st (name part) = Inr (Some (length pre, JDict pd))"
    using pre p by (simp add: find_part_parts find_in_first)
  then show ?thesis
    by (simp add: add_part_def d subscript_def dp py_update_def replace_item_def
        write_parts_def py_setitem_def)
qed

lemma add_part_fresh:
  assumes d: "data st = JDict d"
    and dp: "map_of d ''parts'' = Some (JList ps)"
    and ps: "\<forall>q\<in>set ps. is_named q \<and> name_key q \<noteq> normalize_name (name part)"
  shows "add_part part st dk =
           Inr ((), st\<lparr>data := JDict (dict_set d ''parts''
                        (JList (ps @ [JDict (asdict_part part)])))\<rparr>,
                save (st\<lparr>data := JDict (dict_set d ''parts''
                        (JList (ps @ [JDict (asdict_part part)])))\<rparr>) dk)"
proof -
  have "dict_field ''parts'' (data st) = Some (JList ps)"
    by (simp add: dict_field_def d dp)
  then have "find_part st (name part) = Inr None"
    using ps by (simp add: find_part_parts find_in_none)
  then show ?thesis
    by (simp add: add_part_def d subscript_def dp py_append_def
        write_parts_def py_setitem_def)
qed

lemma add_part_cases:
  assumes "add_part part st dk = Inr res"
  obtains (fresh) d ps where "data st = JDict d" "map_of d ''parts'' = Some (JList ps)"
      "\<forall>q\<in>set ps. is_named q \<and> name_key q \<noteq> normalize_name (name part)"
  | (existing) d pre pd post where "data st = JDict d"
      "map_of d ''parts'' = Some (JList (pre @ JDict pd # post))"
      "\<forall>q\<in>set pre. is_named q \<and> name_key q \<noteq> normalize_name (name part)"
      "is_named (JDict pd)" "name_key (JDict pd) = normalize_name (name part)"
proof -
  from assms obtain parts where sub: "subscript (data st) ''parts'' = Inr parts"
    by (cases "subscript (data st) ''parts''") (simp_all add: add_part_def)
  then obtain d where d: "data st = JDict d" and dp: "map_of d ''parts'' = Some parts"
    by (auto simp: subscript_def split: json.splits option.splits)
  from assms sub obtain found where fp: "find_part st (name part) = Inr found"
    by (cases "find_part st (name part)") (simp_all add: add_part_def)
  with sub obtain ps where it: "iter_list parts = Inr ps"
    by (cases "iter_list parts") (simp_all add: find_part_def Let_def)
  then have parts: "parts = JList ps"
    by (auto simp: iter_list_def split: json.splits)
  from fp sub it have fi: "find_in (normalize_name (name part)) ps = Inr found"
    by (simp add: find_part_def Let_def)
  show ?thesis
  proof (cases found)
    case None
    with fi have "\<forall>q\<in>set ps. is_named q \<and> name_key q \<noteq> normalize_name (name part)"
      by (simp add: find_in_NoneD)
    with d dp parts show ?thesis
      by (auto intro: fresh)
  next
    case (Some ip)
    obtain i p where ip: "ip = (i, p)" by (cases ip)
    from find_in_SomeD [OF fi [unfolded Some ip]] obtain pre post where
      split: "ps = pre @ p # post"
      and pre: "\<forall>q\<in>set pre. is_named q \<and> name_key q \<noteq> normalize_name (name part)"
      and p: "is_named p" "name_key p = normalize_name (name part)"
      by blast
    from p(1) obtain pd where "p = JDict pd"
      by (rule is_namedD)
    with d dp parts split pre p show ?thesis
      by (auto intro: existing)
  qed
qed

lemma save_twice: "save st (save st dk) = save st dk"
  by (simp add: save_def)

section \<open>UpsertPart\<close>

text \<open>
  Claim C9. When \<open>add_part\<close> succeeds, calling it again with the same part on the state
  it left succeeds and leaves the same store and the same disk.
\<close>

theorem add_part_idempotent:
  assumes "add_part part st dk = Inr (u, st', dk')"
  shows "add_part part st' dk' = Inr ((), st', dk')"
  using assms
proof (cases rule: add_part_cases)
  case (fresh d ps)
  let ?new = "JDict (asdict_part part)"
  let ?d' = "dict_set d ''parts'' (JList (ps @ [?new]))"
  from assms add_part_fresh [OF fresh, of dk]
  have st': "st' = st\<lparr>data := JDict ?d'\<rparr>" and dk': "dk' = save st' dk"
    by auto
  have d': "data st' = JDict ?d'"
    by (simp add: st')
  have dp': "map_of ?d' ''parts'' = Some (JList (ps @ ?new # []))"
    by (simp add: map_of_dict_set)
  have same: "dict_update (asdict_part part) (asdict_part part) = asdict_part part"
    by (rule dict_update_same) (rule map_of_asdict_part)
  have wb: "dict_set ?d' ''parts'' (JList (ps @ [?new])) = ?d'"
    by (rule dict_set_same) (simp add: map_of_dict_set)
  have "st'\<lparr>data := JDict ?d'\<rparr> = st'"
    by (simp add: st')
  with add_part_existing [OF d' dp' fresh(3) asdict_named, of dk'] same wb
  show ?thesis
    by (simp add: dk' save_twice)
next
  case (existing d pre pd post)
  let ?new = "JDict (dict_update pd (asdict_part part))"
  let ?d' = "dict_set d ''parts'' (JList (pre @ ?new # post))"
  from assms add_part_existing [OF existing, of dk]
  have st': "st' = st\<lparr>data := JDict ?d'\<rparr>" and dk': "dk' = save st' dk"
    by auto
  have d': "data st' = JDict ?d'"
    by (simp add: st')
  have dp': "map_of ?d' ''parts'' = Some (JList (pre @ ?new # post))"
    by (simp add: map_of_dict_set)
  have same: "dict_update (dict_update pd (asdict_part part)) (asdict_part part)
                = dict_update pd (asdict_part part)"
    by (rule dict_update_same)
      (simp add: map_of_dict_update distinct_asdict_part map_of_asdict_part)
  have wb: "dict_set ?d' ''parts'' (JList (pre @ ?new # post)) = ?d'"
    by (rule dict_set_same) (simp add: map_of_dict_set)
  have "st'\<lparr>data := JDict ?d'\<rparr> = st'"
    by (simp add: st')
  with add_part_existing [OF d' dp' existing(3) updated_named, of dk'] same wb
  show ?thesis
    by (simp add: dk' save_twice)
qed

theorem add_part_idempotent_witness:
  "\<exists>st' dk'. add_part new_brake_pads example_store Map.empty = Inr ((), st', dk')
     \<and> add_part new_brake_pads st' dk' = Inr ((), st', dk')"
proof -
  note defs = is_named_def name_key_def str_field_def dict_field_def brake_pads_def
    new_brake_pads_def normalize_name_def py_strip_def py_lower_def py_lower_char_def
    py_isspace_def
  have d: "data example_store =
             JDict [(''current_mileage_km'', JInt 14000),
                    (''parts'', JList [brake_pads, oil_filter]),
                    (''service_history'', JList [])]"
    by (simp add: example_store_def example_data_def)
  have dp: "map_of [(''current_mileage_km'', JInt 14000),
                    (''parts'', JList [brake_pads, oil_filter]),
                    (''service_history'', JList [])] ''parts''
              = Some (JList ([] @ JDict [(''name'', JStr ''Brake Pads''), (''interval_km'', JInt 30000),
                     (''last_change_km'', JInt 0), (''notes'', JStr ''front'')] # [oil_filter]))"
    by (simp add: brake_pads_def)
  have pre: "\<forall>q\<in>set []. is_named q \<and> name_key q \<noteq> normalize_name (name new_brake_pads)"
    by simp
  have p: "is_named (JDict [(''name'', JStr ''Brake Pads''), (''interval_km'', JInt 30000),
                     (''last_change_km'', JInt 0), (''notes'', JStr ''front'')])"
    "name_key (JDict [(''name'', JStr ''Brake Pads''), (''interval_km'', JInt 30000),
                     (''last_change_km'', JInt 0), (''notes'', JStr ''front'')])
       = normalize_name (name new_brake_pads)"
    by (simp_all add: defs)
  from add_part_existing [OF d dp pre p, of Map.empty]
  obtain st' dk' where run: "add_part new_brake_pads example_store Map.empty = Inr ((), st', dk')"
    by blast
  from run add_part_idempotent [OF run] show ?thesis
    by blast
qed

text \<open>
  Claim C2. On a store whose parts all have names, no two with the same normalized name,
  \<open>add_part\<close> succeeds. If the entry at position \<open>i\<close> has the normalized name of the
  argument, the new parts sequence differs from the old one at position \<open>i\<close> only, and
  the entry there holds the argument's \<open>name\<close>, \<open>interval_km\<close>, \<open>last_change_km\<close> and
  \<open>notes\<close> (keys outside the dataclass stay as they were). If no entry has that
  normalized name, the part is appended at the end. In both cases every part still has a
  name and no two share a normalized name.
\<close>

theorem add_part_upsert:
  assumes "dict_field ''parts'' (data st) = Some (JList ps)"
    and "\<forall>p\<in>set ps. is_named p"
    and "distinct (map name_key ps)"
  shows "\<exists>st' ps'. add_part part st dk = Inr ((), st', save st' dk)
           \<and> dict_field ''parts'' (data st') = Some (JList ps')
           \<and> (\<forall>i<length ps. name_key (ps ! i) = normalize_name (name part) \<longrightarrow>
                (\<exists>e. ps' = ps[i := e]
                   \<and> dict_field ''name'' e = Some (JStr (name part))
                   \<and> dict_field ''interval_km'' e = Some (JInt (interval_km part))
                   \<and> dict_field ''last_change_km'' e = Some (JInt (last_change_km part))
                   \<and> dict_field ''notes'' e = Some (JStr (notes' part))
                   \<and> (\<forall>k. k \<notin> fst ` set (asdict_part part) \<longrightarrow>
                          dict_field k e = dict_field k (ps ! i))))
           \<and> (normalize_name (name part) \<notin> name_key ` set ps \<longrightarrow>
                ps' = ps @ [JDict (asdict_part part)])
           \<and> (\<forall>p\<in>set ps'. is_named p)
           \<and> distinct (map name_key ps')"
proof -
  let ?l = "normalize_name (name part)"
  from assms(1) obtain d where d: "data st = JDict d" and dp: "map_of d ''parts'' = Some (JList ps)"
    by (rule parts_fieldD)
  show ?thesis
  proof (cases "?l \<in> name_key ` set ps")
    case False
    let ?ps' = "ps @ [JDict (asdict_part part)]"
    let ?st' = "st\<lparr>data := JDict (dict_set d ''parts'' (JList ?ps'))\<rparr>"
    from False assms(2) have none: "\<forall>q\<in>set ps. is_named q \<and> name_key q \<noteq> ?l"
      by (metis image_eqI)
    have run: "add_part part st dk = Inr ((), ?st', save ?st' dk)"
      using d dp none by (rule add_part_fresh)
    have parts': "dict_field ''parts'' (data ?st') = Some (JList ?ps')"
      by (simp add: dict_field_def map_of_dict_set)
    have no_i: "\<forall>i<length ps. name_key (ps ! i) \<noteq> ?l"
      using none by simp
    have named: "\<forall>p\<in>set ?ps'. is_named p"
      using assms(2) by (simp add: asdict_named)
    have inv: "distinct (map name_key ?ps')"
      using assms(3) False by (simp add: asdict_named)
    from run parts' no_i named inv show ?thesis
      by blast
  next
    case True
    then have "\<exists>p\<in>set ps. name_key p = ?l"
      by auto
    from split_list_first_prop [OF this]
    obtain pre p post where split: "ps = pre @ p # post" and key: "name_key p = ?l"
      and first: "\<forall>q\<in>set pre. name_key q \<noteq> ?l"
      by blast
    from assms(2) split have named_p: "is_named p" and named_pre: "\<forall>q\<in>set pre. is_named q"
      by simp_all
    from named_p obtain pd where p: "p = JDict pd"
      by (rule is_namedD)
    let ?e = "JDict (dict_update pd (asdict_part part))"
    let ?ps' = "pre @ ?e # post"
    let ?st' = "st\<lparr>data := JDict (dict_set d ''parts'' (JList ?ps'))\<rparr>"
    have run: "add_part part st dk = Inr ((), ?st', save ?st' dk)"
      using d dp [unfolded split p] named_pre first named_p key
      by (intro add_part_existing) (simp_all add: p)
    have parts': "dict_field ''parts'' (data ?st') = Some (JList ?ps')"
      by (simp add: dict_field_def map_of_dict_set)
    have flds: "dict_field ''name'' ?e = Some (JStr (name part))"
      "dict_field ''interval_km'' ?e = Some (JInt (interval_km part))"
      "dict_field ''last_change_km'' ?e = Some (JInt (last_change_km part))"
      "dict_field ''notes'' ?e = Some (JStr (notes' part))"
      by (simp_all add: dict_field_def map_of_dict_update distinct_asdict_part,
          simp_all add: asdict_part_def)
    have other: "\<forall>k. k \<notin> fst ` set (asdict_part part) \<longrightarrow> dict_field k ?e = dict_field k p"
      by (auto simp: dict_field_def map_of_dict_update distinct_asdict_part p map_add_def
          rev_image_eqI split: option.splits dest!: map_of_SomeD)
    have at: "i = length pre" if "i < length ps" "name_key (ps ! i) = ?l" for i
    proof -
      have lt: "length pre < length ps" and "ps ! length pre = p"
        by (simp_all add: split)
      with that key have "map name_key ps ! i = map name_key ps ! length pre"
        by (simp del: nth_append_length)
      moreover have "i < length (map name_key ps)" "length pre < length (map name_key ps)"
        using that(1) lt by simp_all
      ultimately show ?thesis
        using assms(3) by (simp only: nth_eq_iff_index_eq)
    qed
    have upd: "ps[length pre := ?e] = ?ps'"
      by (simp add: split)
    have "ps ! length pre = p"
      by (simp add: split)
    with at upd flds other
    have repl: "\<forall>i<length ps. name_key (ps ! i) = ?l \<longrightarrow>
                (\<exists>e. ?ps' = ps[i := e]
                   \<and> dict_field ''name'' e = Some (JStr (name part))
                   \<and> dict_field ''interval_km'' e = Some (JInt (interval_km part))
                   \<and> dict_field ''last_change_km'' e = Some (JInt (last_change_km part))
                   \<and> dict_field ''notes'' e = Some (JStr (notes' part))
                   \<and> (\<forall>k. k \<notin> fst ` set (asdict_part part) \<longrightarrow>
                          dict_field k e = dict_field k (ps ! i)))"
      by metis
    have named: "\<forall>p\<in>set ?ps'. is_named p"
      using assms(2) by (simp add: split updated_named)
    have "map name_key ?ps' = map name_key ps"
      by (simp add: split updated_named key)
    with assms(3) have inv: "distinct (map name_key ?ps')"
      by simp
    from run parts' repl True named inv show ?thesis
      by blast
  qed
qed

theorem add_part_upsert_witness:
  "(\<exists>st' e. add_part new_brake_pads example_store Map.empty = Inr ((), st', save st' Map.empty)
      \<and> dict_field ''parts'' (data st') = Some (JList [e, oil_filter])
      \<and> dict_field ''name'' e = Some (JStr ''BRAKE PADS '')
      \<and> dict_field ''interval_km'' e = Some (JInt 25000)
      \<and> dict_field ''last_change_km'' e = Some (JInt 1000)
      \<and> dict_field ''notes'' e = Some (JStr []))
   \<and> (\<exists>st'. add_part air_filter example_store Map.empty = Inr ((), st', save st' Map.empty)
      \<and> dict_field ''parts'' (data st')
          = Some (JList [brake_pads, oil_filter, JDict (asdict_part air_filter)]))"
proof -
  note defs = is_named_def name_key_def str_field_def dict_field_def brake_pads_def
    oil_filter_def normalize_name_def py_strip_def py_lower_def py_lower_char_def py_isspace_def
  have parts: "dict_field ''parts'' (data example_store) = Some (JList [brake_pads, oil_filter])"
    by (simp add: example_store_def example_data_def dict_field_def)
  have named: "\<forall>p\<in>set [brake_pads, oil_filter]. is_named p"
    by (simp add: defs)
  have k1: "name_key brake_pads = ''brake pads''" and k2: "name_key oil_filter = ''oil filter''"
    by (simp_all add: defs)
  have inv: "distinct (map name_key [brake_pads, oil_filter])"
    by (simp add: k1 k2)
  have n1: "normalize_name (name new_brake_pads) = ''brake pads''"
    and n2: "normalize_name (name air_filter) = ''air filter''"
    by (simp_all add: new_brake_pads_def air_filter_def normalize_name_def py_strip_def
        py_lower_def py_lower_char_def py_isspace_def)
  from add_part_upsert [OF parts named inv, of new_brake_pads Map.empty]
  obtain st1 ps1 where run1: "add_part new_brake_pads example_store Map.empty
                               = Inr ((), st1, save st1 Map.empty)"
    and parts1: "dict_field ''parts'' (data st1) = Some (JList ps1)"
    and repl: "\<forall>i<length [brake_pads, oil_filter].
                 name_key ([brake_pads, oil_filter] ! i) = normalize_name (name new_brake_pads) \<longrightarrow>
                (\<exists>e. ps1 = [brake_pads, oil_filter][i := e]
                   \<and> dict_field ''name'' e = Some (JStr (name new_brake_pads))
                   \<and> dict_field ''interval_km'' e = Some (JInt (interval_km new_brake_pads))
                   \<and> dict_field ''last_change_km'' e = Some (JInt (last_change_km new_brake_pads))
                   \<and> dict_field ''notes'' e = Some (JStr (notes' new_brake_pads))
                   \<and> (\<forall>k. k \<notin> fst ` set (asdict_part new_brake_pads) \<longrightarrow>
                          dict_field k e = dict_field k ([brake_pads, oil_filter] ! i)))"
    by blast
  from repl [rule_format, of 0] obtain e where "ps1 = [e, oil_filter]"
    "dict_field ''name'' e = Some (JStr ''BRAKE PADS '')"
    "dict_field ''interval_km'' e = Some (JInt 25000)"
    "dict_field ''last_change_km'' e = Some (JInt 1000)"
    "dict_field ''notes'' e = Some (JStr [])"
    by (auto simp: k1 n1) (simp add: new_brake_pads_def)
  with run1 parts1 have a: "\<exists>st' e. add_part new_brake_pads example_store Map.empty
                                     = Inr ((), st', save st' Map.empty)
      \<and> dict_field ''parts'' (data st') = Some (JList [e, oil_filter])
      \<and> dict_field ''name'' e = Some (JStr ''BRAKE PADS '')
      \<and> dict_field ''interval_km'' e = Some (JInt 25000)
      \<and> dict_field ''last_change_km'' e = Some (JInt 1000)
      \<and> dict_field ''notes'' e = Some (JStr [])"
    by blast
  have b: "\<exists>st'. add_part air_filter example_store Map.empty = Inr ((), st', save st' Map.empty)
      \<and> dict_field ''parts'' (data st')
          = Some (JList [brake_pads, oil_filter, JDict (asdict_part air_filter)])"
    using add_part_upsert [OF parts named inv, of air_filter Map.empty]
    by (auto simp: k1 k2 n2)
  from a b show ?thesis ..
qed

section \<open>Load\<close>

text \<open>
  Claim C6. When no file exists at the path, \<open>load\<close> returns the empty default state
  (mileage 0, no parts, no service history); when a file exists whose content
  \<^verbatim>\<open>json.load\<close> rejects, it fails with the decoder's error (the spec's
  StorageCorruptError).
\<close>

theorem load_default_or_corrupt:
  "(dk path = None \<longrightarrow>
      load path dk = Inr (JDict [(''current_mileage_km'', JInt 0), (''parts'', JList []),
                                 (''service_history'', JList [])]))
   \<and> (dk path = Some (Malformed txt) \<longrightarrow> load path dk = Inl JSONDecodeError)"
  by (simp add: load_def default_data_def)

theorem load_default_or_corrupt_witness:
  "load ''db.json'' Map.empty
     = Inr (JDict [(''current_mileage_km'', JInt 0), (''parts'', JList []),
                   (''service_history'', JList [])])
   \<and> load ''db.json'' [''db.json'' \<mapsto> Malformed ''{ parts: [''] = Inl JSONDecodeError"
proof -
  have a: "Map.empty ''db.json'' = (None :: file_content option)"
    by simp
  have b: "[''db.json'' \<mapsto> Malformed ''{ parts: [''] ''db.json'' = Some (Malformed ''{ parts: ['')"
    by simp
  from load_default_or_corrupt [of Map.empty "''db.json''"] a
    load_default_or_corrupt [of "[''db.json'' \<mapsto> Malformed ''{ parts: ['']" "''db.json''" "''{ parts: [''"] b
  show ?thesis
    by blast
qed

text \<open>
  A file that holds a well-formed document is returned as it is, whatever its shape.
\<close>

lemma load_wellformed: "dk path = Some (Wellformed doc) \<Longrightarrow> load path dk = Inr doc"
  by (simp add: load_def)

text \<open>
  \<open>save\<close> writes the whole document at \<open>db_path\<close>, and \<open>load\<close> reads the file at the
  path it is given: on this disk, where a file is the document its text denotes, loading
  after saving gives the document back.
\<close>

lemma load_after_save: "load (db_path st) (save st dk) = Inr (data st)"
  by (simp add: load_def save_def)

text \<open>
  Claim C7, as the spec states it, fails: nothing is filled in on load. The part stored
  without \<open>notes\<close> yields a view without \<open>notes\<close>, while the same part stored with the
  default yields a view with \<open>notes = ""\<close>.
\<close>

theorem load_fills_no_default:
  "init ''db.json'' sparse_disk = Inr sparse_store
   \<and> due_parts None sparse_store sparse_disk
       = Inr ([JDict [(''name'', JStr ''oil filter''), (''interval_km'', JInt 10000),
                      (''last_change_km'', JInt 5000), (''supplier'', JStr ''acme''),
                      (''due_at_km'', JInt 15000), (''remaining_km'', JInt 1000)]],
              sparse_store, sparse_disk)
   \<and> init ''db.json'' filled_disk = Inr filled_store
   \<and> due_parts None filled_store filled_disk
       = Inr ([JDict [(''name'', JStr ''oil filter''), (''interval_km'', JInt 10000),
                      (''last_change_km'', JInt 5000), (''supplier'', JStr ''acme''),
                      (''notes'', JStr []),
                      (''due_at_km'', JInt 15000), (''remaining_km'', JInt 1000)]],
              filled_store, filled_disk)
   \<and> map_sum id fst (due_parts None sparse_store sparse_disk)
       \<noteq> map_sum id fst (due_parts None filled_store filled_disk)"
proof -
  have i1: "init ''db.json'' sparse_disk = Inr sparse_store"
    by (simp add: init_def load_def sparse_disk_def sparse_store_def)
  have i2: "init ''db.json'' filled_disk = Inr filled_store"
    by (simp add: init_def load_def filled_disk_def filled_store_def)
  have d1: "due_parts None sparse_store sparse_disk
       = Inr ([JDict [(''name'', JStr ''oil filter''), (''interval_km'', JInt 10000),
                      (''last_change_km'', JInt 5000), (''supplier'', JStr ''acme''),
                      (''due_at_km'', JInt 15000), (''remaining_km'', JInt 1000)]],
              sparse_store, sparse_disk)"
    by (simp add: due_parts_def current_mileage_def py_get_def py_int_def subscript_def
        iter_list_def due_item_def py_add_def py_sub_def py_sort_def remaining_key_def
        sparse_store_def sparse_doc_def sparse_part_def)
  have d2: "due_parts None filled_store filled_disk
       = Inr ([JDict [(''name'', JStr ''oil filter''), (''interval_km'', JInt 10000),
                      (''last_change_km'', JInt 5000), (''supplier'', JStr ''acme''),
                      (''notes'', JStr []),
                      (''due_at_km'', JInt 15000), (''remaining_km'', JInt 1000)]],
              filled_store, filled_disk)"
    by (simp add: due_parts_def current_mileage_def py_get_def py_int_def subscript_def
        iter_list_def due_item_def py_add_def py_sub_def py_sort_def remaining_key_def
        filled_store_def filled_doc_def filled_part_def)
  have ne: "map_sum id fst (due_parts None sparse_store sparse_disk)
       \<noteq> map_sum id fst (due_parts None filled_store filled_disk)"
    unfolding d1 d2 by simp
  from i1 d1 i2 d2 ne show ?thesis
    by blast
qed

text \<open>
  Claim C7, amended. A well-formed document is taken as stored: \<open>init\<close> returns it
  unchanged. Keys the program does not know and missing optional keys are both
  tolerated: \<open>due_parts\<close> needs only the int \<open>last_change_km\<close> and \<open>interval_km\<close> of each
  part, and each view has, for every key other than the two computed ones, exactly what
  the stored part has (an unknown key is carried along, an absent \<open>notes\<close> stays absent);
  \<open>add_service_record\<close> needs only the int \<open>mileage_km\<close> and the string \<open>date\<close> of the
  stored records and keeps them as stored.
\<close>

theorem load_keeps_document:
  assumes "dk path = Some (Wellformed doc)"
    and "dict_field ''current_mileage_km'' doc = Some (JInt cur)"
    and "dict_field ''parts'' doc = Some (JList ps)"
    and "\<forall>p\<in>set ps. has_km_fields p"
    and "dict_field ''service_history'' doc = Some (JList h)"
    and "\<forall>x\<in>set h. is_keyed x"
  shows "\<exists>st. init path dk = Inr st \<and> db_path st = path \<and> data st = doc
           \<and> (\<exists>vs. due_parts at_mileage st dk = Inr (vs, st, dk)
                \<and> mset vs = mset (map (DuePartView (reference_mileage at_mileage cur)) ps))
           \<and> (\<forall>p\<in>set ps. \<forall>k. k \<noteq> ''due_at_km'' \<longrightarrow> k \<noteq> ''remaining_km'' \<longrightarrow>
                 dict_field k (DuePartView (reference_mileage at_mileage cur) p) = dict_field k p)
           \<and> (\<exists>st' h'. add_service_record r st dk = Inr ((), st', save st' dk)
                \<and> dict_field ''service_history'' (data st') = Some (JList h')
                \<and> mset h' = mset (h @ [JDict (asdict_record r)]))"
proof -
  let ?st = "\<lparr>db_path = path, data = doc\<rparr>"
  let ?r = "reference_mileage at_mileage cur"
  have i: "init path dk = Inr ?st"
    using assms(1) by (simp add: init_def load_def)
  have parts: "dict_field ''parts'' (data ?st) = Some (JList ps)"
    and cur: "at_mileage = None \<longrightarrow> dict_field ''current_mileage_km'' (data ?st) = Some (JInt cur)"
    and hist: "dict_field ''service_history'' (data ?st) = Some (JList h)"
    using assms by simp_all
  have "due_parts at_mileage ?st dk
          = Inr (sort_key (int_field ''remaining_km'') (map (DuePartView ?r) ps), ?st, dk)"
    using parts assms(4) cur by (rule due_parts_result)
  then have due: "\<exists>vs. due_parts at_mileage ?st dk = Inr (vs, ?st, dk)
                \<and> mset vs = mset (map (DuePartView ?r) ps)"
    by simp
  have keys: "\<forall>p\<in>set ps. \<forall>k. k \<noteq> ''due_at_km'' \<longrightarrow> k \<noteq> ''remaining_km'' \<longrightarrow>
                 dict_field k (DuePartView ?r p) = dict_field k p"
    using assms(4) by (simp add: view_fields(3))
  have add: "\<exists>st' h'. add_service_record r ?st dk = Inr ((), st', save st' dk)
                \<and> dict_field ''service_history'' (data st') = Some (JList h')
                \<and> mset h' = mset (h @ [JDict (asdict_record r)])"
    using add_service_record_history [OF hist assms(6), of r dk] by blast
  have sel: "db_path ?st = path" "data ?st = doc"
    by simp_all
  from i sel due keys add show ?thesis
    by blast
qed


theorem load_keeps_document_witness:
  "\<exists>st. init ''db.json'' sparse_disk = Inr st \<and> db_path st = ''db.json'' \<and> data st = sparse_doc
     \<and> (\<exists>vs. due_parts None st sparse_disk = Inr (vs, st, sparse_disk)
          \<and> mset vs = mset (map (DuePartView (reference_mileage None 14000)) [sparse_part]))
     \<and> (\<exists>st' h'. add_service_record service_feb st sparse_disk = Inr ((), st', save st' sparse_disk)
          \<and> dict_field ''service_history'' (data st') = Some (JList h')
          \<and> mset h' = mset ([sparse_record] @ [JDict (asdict_record service_feb)]))"
proof -
  have a: "sparse_disk ''db.json'' = Some (Wellformed sparse_doc)"
    by (simp add: sparse_disk_def)
  have b: "dict_field ''current_mileage_km'' sparse_doc = Some (JInt 14000)"
    and c: "dict_field ''parts'' sparse_doc = Some (JList [sparse_part])"
    and e: "dict_field ''service_history'' sparse_doc = Some (JList [sparse_record])"
    by (simp_all add: sparse_doc_def dict_field_def)
  have d: "\<forall>p\<in>set [sparse_part]. has_km_fields p"
    by (simp add: has_km_fields_def dict_field_def sparse_part_def)
  have f: "\<forall>x\<in>set [sparse_record]. is_keyed x"
    by (simp add: is_keyed_def dict_field_def sparse_record_def)
  show ?thesis
    using load_keeps_document [where dk = sparse_disk and path = "''db.json''"
        and at_mileage = None and r = service_feb, OF a b c d e f]
    by (elim exE conjE) (intro exI conjI; assumption)
qed

section \<open>Scenarios of the spec, evaluated\<close>

lemma due_scenario_result:
  "due_scenario =
     Inr [JDict [(''name'', JStr ''oil filter''), (''interval_km'', JInt 10000),
                 (''last_change_km'', JInt 5000), (''notes'', JStr []),
                 (''due_at_km'', JInt 15000), (''remaining_km'', JInt 1000)]]"
  by (simp add: due_scenario_def init_def load_def default_data_def add_part_def subscript_def
      find_part_def iter_list_def py_append_def write_parts_def py_setitem_def
      set_current_mileage_def due_parts_def current_mileage_def py_get_def py_int_def
      due_item_def py_add_def py_sub_def py_sort_def remaining_key_def asdict_part_def
      oil_filter_part_def Let_def)

lemma empty_store_due:
  "due_parts None new_store Map.empty = Inr ([], new_store, Map.empty)"
  by (simp add: due_parts_def current_mileage_def py_get_def py_int_def subscript_def
      iter_list_def py_sort_def new_store_def default_data_def)

end
